theory Spec2Isabelle
  imports
    Complex_Main
    "HOL-Library.Word"
    "HOL-Library.Char_ord"
    "HOL-Library.List_Lexorder"
    "HOL-Library.Product_Lexorder"
    "HOL-Library.Multiset"
begin

unbundle bit_operations_syntax

section \<open>Feedback-Copilot: retrieval fusion, anonymisation and guarded answers\<close>

text \<open>
  The development follows the Python excerpts of \<^verbatim>\<open>services/pii.py\<close>,
  \<^verbatim>\<open>services/vectorstore.py\<close> and \<^verbatim>\<open>services/rag.py\<close> that the repository's
  documentation quotes, and the TypeScript pages of the frontend.

  Conventions of the embedding:
  \<^item> a Python \<^verbatim>\<open>str\<close> is a \<^typ>\<open>string\<close> whose characters are read as the code
    points 0..255 (so an umlaut is one character, as in Python);
  \<^item> Python and JavaScript numbers are exact rationals (\<^typ>\<open>rat\<close>), ranks and
    offsets natural numbers;
  \<^item> a dict is a map, a list a list.
\<close>

subsection \<open>Relevance threshold (rag.py)\<close>

text \<open>
  A retrieved source as the chat endpoint returns it and as the chat page declares it
  (\<^verbatim>\<open>interface Source { id; text; score; metadata? }\<close>). In the words of the
  specification this is an EvidenceItem: \<^verbatim>\<open>id\<close> is its document id, \<^verbatim>\<open>score\<close> its
  fused score (the fields \<^verbatim>\<open>id\<close> and \<^verbatim>\<open>text\<close> carry the prefix
  \<open>source_\<close> here, both names being taken in HOL).
\<close>

record source =
  source_id :: string
  source_text :: string
  score :: rat
  metadata :: "(string \<times> string) list"

text \<open>\<^verbatim>\<open>MIN_RELEVANCE_SCORE = 0.015\<close>\<close>

definition MIN_RELEVANCE_SCORE :: rat where
  "MIN_RELEVANCE_SCORE = 15 / 1000"

text \<open>
  \<^verbatim>\<open>relevant_sources = [s for s in sources if s["score"] >= MIN_RELEVANCE_SCORE]\<close>
  with the threshold as the parameter \<open>min_score\<close>.
\<close>

definition relevant_sources :: "source list \<Rightarrow> rat \<Rightarrow> source list" where
  "relevant_sources sources min_score = [s \<leftarrow> sources. score s \<ge> min_score]"

text \<open>
  Modelled from the spec: the truncation of the thresholded list to \<open>max_results\<close>
  (the slice is not part of the quoted excerpt of rag.py): "Drops every candidate whose
  fused_score is below min_score; truncates the remainder to max_results."
\<close>

definition relevance_filter :: "source list \<Rightarrow> rat \<Rightarrow> nat \<Rightarrow> source list" where
  "relevance_filter fused_candidates min_score max_results =
     take max_results (relevant_sources fused_candidates min_score)"

subsection \<open>Regular expressions of the PII patterns (pii.py)\<close>

text \<open>
  The patterns of \<^verbatim>\<open>self.patterns\<close> use a small fragment of Python's \<^verbatim>\<open>re\<close>: the
  word boundary \<^verbatim>\<open>\b\<close>, character classes under a greedy repetition
  (\<^verbatim>\<open>+\<close>, \<^verbatim>\<open>?\<close>, \<^verbatim>\<open>{m,n}\<close>), literals and one alternation of literals. A pattern
  is a sequence of such atoms. A character class is a list of inclusive code point
  ranges.
\<close>

type_synonym cls = "(char \<times> char) list"

definition in_cls :: "cls \<Rightarrow> char \<Rightarrow> bool" where
  "in_cls cs c = list_ex (\<lambda>(lo, hi). lo \<le> c \<and> c \<le> hi) cs"

datatype atom =
    Boundary
  | Chars cls nat "nat option"
  | Literals "string list"

type_synonym pattern = "atom list"

text \<open>
  \<^verbatim>\<open>\w\<close> of a \<^verbatim>\<open>str\<close> pattern: the alphanumeric code points and the underscore;
  below 256 these are the ranges listed. \<^verbatim>\<open>\b\<close> holds between a word character
  and a character that is none, the start and the end of the text counting as none.
\<close>

definition word_chars :: cls where
  "word_chars =
     [(CHR ''0'', CHR ''9''), (CHR ''A'', CHR ''Z''), (CHR ''_'', CHR ''_''),
      (CHR ''a'', CHR ''z''), (CHR 0xAA, CHR 0xAA), (CHR 0xB2, CHR 0xB3),
      (CHR 0xB5, CHR 0xB5), (CHR 0xB9, CHR 0xBA), (CHR 0xBC, CHR 0xBE),
      (CHR 0xC0, CHR 0xD6), (CHR 0xD8, CHR 0xF6), (CHR 0xF8, CHR 0xFF)]"

definition is_boundary :: "char option \<Rightarrow> string \<Rightarrow> bool" where
  "is_boundary p s =
     ((case p of None \<Rightarrow> False | Some c \<Rightarrow> in_cls word_chars c)
      \<noteq> (case s of [] \<Rightarrow> False | c # _ \<Rightarrow> in_cls word_chars c))"

text \<open>
  The numbers of characters one atom can consume at a position, in the order in which
  the backtracking matcher tries them: a greedy repetition tries the longest run first,
  an alternation its branches from left to right. \<open>p\<close> is the character before the
  position (\<open>None\<close> at the start of the text), \<open>s\<close> the text from the position on.
\<close>

fun steps :: "atom \<Rightarrow> char option \<Rightarrow> string \<Rightarrow> nat list" where
  "steps Boundary p s = (if is_boundary p s then [0] else [])"
| "steps (Chars c m n) p s =
     (let k = length (takeWhile (in_cls c) (case n of None \<Rightarrow> s | Some b \<Rightarrow> take b s))
      in rev [m ..< Suc k])"
| "steps (Literals ls) p s = map length (filter (\<lambda>l. take (length l) s = l) ls)"

definition prev_after :: "nat \<Rightarrow> char option \<Rightarrow> string \<Rightarrow> char option" where
  "prev_after j p s = (if j = 0 then p else Some (s ! (j - 1)))"

text \<open>
  All lengths of a match of the pattern at a position, first the one the backtracking
  matcher finds.
\<close>

primrec ends :: "pattern \<Rightarrow> char option \<Rightarrow> string \<Rightarrow> nat list" where
  "ends [] p s = [0]"
| "ends (a # as) p s =
     concat (map (\<lambda>j. map ((+) j) (ends as (prev_after j p s) (drop j s))) (steps a p s))"

definition match_at :: "pattern \<Rightarrow> char option \<Rightarrow> string \<Rightarrow> nat option" where
  "match_at pat p s = (case ends pat p s of [] \<Rightarrow> None | n # _ \<Rightarrow> Some n)"

text \<open>
  \<^verbatim>\<open>re.finditer\<close>: the leftmost matches from left to right, none overlapping an
  earlier one. \<open>off\<close> is the offset of the position, \<open>skip\<close> the number of characters
  that still belong to the match found last.
\<close>

fun scan :: "pattern \<Rightarrow> nat \<Rightarrow> nat \<Rightarrow> char option \<Rightarrow> string \<Rightarrow> (nat \<times> nat) list" where
  "scan pat off skip p [] = []"
| "scan pat off skip p (c # s) =
     (if skip > 0 then scan pat (Suc off) (skip - 1) (Some c) s
      else case match_at pat p (c # s) of
             None \<Rightarrow> scan pat (Suc off) 0 (Some c) s
           | Some n \<Rightarrow> (off, off + n) # scan pat (Suc off) (n - 1) (Some c) s)"

definition finditer :: "pattern \<Rightarrow> string \<Rightarrow> (nat \<times> nat) list" where
  "finditer pat s = scan pat 0 0 None s"

text \<open>\<^verbatim>\<open>\d\<close> and \<^verbatim>\<open>[\s\-]\<close> (the white space below 256, and the dash).\<close>

definition digit :: cls where
  "digit = [(CHR ''0'', CHR ''9'')]"

definition space_or_dash :: cls where
  "space_or_dash =
     [(CHR 0x09, CHR 0x0D), (CHR 0x1C, CHR 0x20), (CHR 0x85, CHR 0x85),
      (CHR 0xA0, CHR 0xA0), (CHR ''-'', CHR ''-'')]"

text \<open>
  \<^verbatim>\<open>"email": r'\b[A-Za-z0-9._%+-]+@[A-Za-z0-9.-]+\.[A-Z|a-z]{2,}\b'\<close>
\<close>

definition email_rx :: pattern where
  "email_rx =
     [Boundary,
      Chars [(CHR ''A'', CHR ''Z''), (CHR ''a'', CHR ''z''), (CHR ''0'', CHR ''9''),
             (CHR ''.'', CHR ''.''), (CHR ''_'', CHR ''_''), (CHR ''%'', CHR ''%''),
             (CHR ''+'', CHR ''+''), (CHR ''-'', CHR ''-'')] 1 None,
      Literals [''@''],
      Chars [(CHR ''A'', CHR ''Z''), (CHR ''a'', CHR ''z''), (CHR ''0'', CHR ''9''),
             (CHR ''.'', CHR ''.''), (CHR ''-'', CHR ''-'')] 1 None,
      Literals [''.''],
      Chars [(CHR ''A'', CHR ''Z''), (CHR ''|'', CHR ''|''), (CHR ''a'', CHR ''z'')] 2 None,
      Boundary]"

text \<open>
  \<^verbatim>\<open>"phone_de": r'\b(?:\+49|0049|0)[\s\-]?(?:\d{2,4})[\s\-]?\d{3,8}\b'\<close>
\<close>

definition phone_de_rx :: pattern where
  "phone_de_rx =
     [Boundary, Literals [''+49'', ''0049'', ''0''], Chars space_or_dash 0 (Some 1),
      Chars digit 2 (Some 4), Chars space_or_dash 0 (Some 1), Chars digit 3 (Some 8),
      Boundary]"

text \<open>
  \<^verbatim>\<open>"plate_de": r'\b[A-Z...]{1,3}[\s\-]?[A-Z]{1,2}[\s\-]?\d{1,4}[EH]?\b'\<close>, the
  first class holding the capital letters A to Z and the three capital umlauts
  (code points 0xC4, 0xD6, 0xDC).
\<close>

definition plate_de_rx :: pattern where
  "plate_de_rx =
     [Boundary,
      Chars [(CHR ''A'', CHR ''Z''), (CHR 0xC4, CHR 0xC4), (CHR 0xD6, CHR 0xD6),
             (CHR 0xDC, CHR 0xDC)] 1 (Some 3),
      Chars space_or_dash 0 (Some 1),
      Chars [(CHR ''A'', CHR ''Z'')] 1 (Some 2),
      Chars space_or_dash 0 (Some 1),
      Chars digit 1 (Some 4),
      Chars [(CHR ''E'', CHR ''E''), (CHR ''H'', CHR ''H'')] 0 (Some 1),
      Boundary]"

text \<open>\<^verbatim>\<open>"vin": r'\b[A-HJ-NPR-Z0-9]{17}\b'\<close>\<close>

definition vin_rx :: pattern where
  "vin_rx =
     [Boundary,
      Chars [(CHR ''A'', CHR ''H''), (CHR ''J'', CHR ''N''), (CHR ''P'', CHR ''P''),
             (CHR ''R'', CHR ''Z''), (CHR ''0'', CHR ''9'')] 17 (Some 17),
      Boundary]"

text \<open>
  The date pattern is not part of the quoted dictionary; the documentation's table of
  the implemented PII types gives it as \<^verbatim>\<open>\d{1,2}\.\d{1,2}\.\d{2,4}\<close>.
\<close>

definition date_rx :: pattern where
  "date_rx =
     [Chars digit 1 (Some 2), Literals [''.''], Chars digit 1 (Some 2), Literals [''.''],
      Chars digit 2 (Some 4)]"

text \<open>
  A registered pattern: its key in \<^verbatim>\<open>self.patterns\<close>, its regular expression and
  the tag that replaces a match (the column "Ersetzt durch" of the documentation). The
  key of the date pattern is not quoted; it is \<open>date\<close> here.
\<close>

record detector =
  name :: string
  regex :: pattern
  tag :: string

definition patterns :: "detector list" where
  "patterns =
     [\<lparr>name = ''email'', regex = email_rx, tag = ''[EMAIL]''\<rparr>,
      \<lparr>name = ''phone_de'', regex = phone_de_rx, tag = ''[TELEFON]''\<rparr>,
      \<lparr>name = ''plate_de'', regex = plate_de_rx, tag = ''[KENNZEICHEN]''\<rparr>,
      \<lparr>name = ''vin'', regex = vin_rx, tag = ''[VIN]''\<rparr>,
      \<lparr>name = ''date'', regex = date_rx, tag = ''[DATUM]''\<rparr>]"

subsection \<open>Pseudonyms (pii.py)\<close>

text \<open>
  \<^verbatim>\<open>
  def _hash(self, value: str) -> str:
      return hashlib.sha256(value.encode()).hexdigest()[:16]
  \<close>
  \<^verbatim>\<open>value.encode()\<close> is the UTF-8 encoding: one byte for a code point below 128, two
  bytes for the code points 128..255.
\<close>

type_synonym byte = "8 word"

type_synonym w32 = "32 word"

definition encode :: "string \<Rightarrow> byte list" where
  "encode s =
     concat (map (\<lambda>c. let n = (of_char c :: nat) in
                       if n < 128 then [of_nat n]
                       else [of_nat (192 + n div 64), of_nat (128 + n mod 64)]) s)"

text \<open>SHA-256 (FIPS 180-4) as \<^verbatim>\<open>hashlib.sha256\<close> computes it.\<close>

text \<open>
  The round constants: for each of the first 64 primes, the first 32 bits of the
  fractional part of its cube root.
\<close>

definition round_constants :: "(nat \<times> w32) list" where
  "round_constants =
    [(2, 0x428a2f98), (3, 0x71374491), (5, 0xb5c0fbcf), (7, 0xe9b5dba5),
     (11, 0x3956c25b), (13, 0x59f111f1), (17, 0x923f82a4), (19, 0xab1c5ed5),
     (23, 0xd807aa98), (29, 0x12835b01), (31, 0x243185be), (37, 0x550c7dc3),
     (41, 0x72be5d74), (43, 0x80deb1fe), (47, 0x9bdc06a7), (53, 0xc19bf174),
     (59, 0xe49b69c1), (61, 0xefbe4786), (67, 0x0fc19dc6), (71, 0x240ca1cc),
     (73, 0x2de92c6f), (79, 0x4a7484aa), (83, 0x5cb0a9dc), (89, 0x76f988da),
     (97, 0x983e5152), (101, 0xa831c66d), (103, 0xb00327c8), (107, 0xbf597fc7),
     (109, 0xc6e00bf3), (113, 0xd5a79147), (127, 0x06ca6351), (131, 0x14292967),
     (137, 0x27b70a85), (139, 0x2e1b2138), (149, 0x4d2c6dfc), (151, 0x53380d13),
     (157, 0x650a7354), (163, 0x766a0abb), (167, 0x81c2c92e), (173, 0x92722c85),
     (179, 0xa2bfe8a1), (181, 0xa81a664b), (191, 0xc24b8b70), (193, 0xc76c51a3),
     (197, 0xd192e819), (199, 0xd6990624), (211, 0xf40e3585), (223, 0x106aa070),
     (227, 0x19a4c116), (229, 0x1e376c08), (233, 0x2748774c), (239, 0x34b0bcb5),
     (241, 0x391c0cb3), (251, 0x4ed8aa4a), (257, 0x5b9cca4f), (263, 0x682e6ff3),
     (269, 0x748f82ee), (271, 0x78a5636f), (277, 0x84c87814), (281, 0x8cc70208),
     (283, 0x90befffa), (293, 0xa4506ceb), (307, 0xbef9a3f7), (311, 0xc67178f2)]"

definition K256 :: "w32 list" where
  "K256 = map snd round_constants"

type_synonym sha_state = "w32 \<times> w32 \<times> w32 \<times> w32 \<times> w32 \<times> w32 \<times> w32 \<times> w32"

definition H256 :: sha_state where
  "H256 = (0x6a09e667, 0xbb67ae85, 0x3c6ef372, 0xa54ff53a,
           0x510e527f, 0x9b05688c, 0x1f83d9ab, 0x5be0cd19)"

definition rotr :: "nat \<Rightarrow> w32 \<Rightarrow> w32" where
  "rotr n w = word_rotr n w"

text \<open>
  Padding: the byte 0x80, zero bytes up to 56 modulo 64, and the length of the message
  in bits as a 64-bit big-endian number.
\<close>

definition pad :: "byte list \<Rightarrow> byte list" where
  "pad m =
     m @ [0x80] @ replicate ((119 - length m mod 64) mod 64) 0
     @ map (\<lambda>i. ucast (drop_bit (8 * i) (of_nat (8 * length m) :: 64 word)))
         [7, 6, 5, 4, 3, 2, 1, 0]"

fun chunks :: "nat \<Rightarrow> 'a list \<Rightarrow> 'a list list" where
  "chunks 0 xs = []"
| "chunks (Suc n) xs = take 64 xs # chunks n (drop 64 xs)"

fun be_words :: "byte list \<Rightarrow> w32 list" where
  "be_words (a # b # c # d # r) =
     (push_bit 24 (ucast a) OR push_bit 16 (ucast b) OR push_bit 8 (ucast c) OR ucast d)
     # be_words r"
| "be_words _ = []"

definition ssig0 :: "w32 \<Rightarrow> w32" where
  "ssig0 x = rotr 7 x XOR rotr 18 x XOR drop_bit 3 x"

definition ssig1 :: "w32 \<Rightarrow> w32" where
  "ssig1 x = rotr 17 x XOR rotr 19 x XOR drop_bit 10 x"

definition bsig0 :: "w32 \<Rightarrow> w32" where
  "bsig0 x = rotr 2 x XOR rotr 13 x XOR rotr 22 x"

definition bsig1 :: "w32 \<Rightarrow> w32" where
  "bsig1 x = rotr 6 x XOR rotr 11 x XOR rotr 25 x"

fun schedule :: "nat \<Rightarrow> w32 list \<Rightarrow> w32 list" where
  "schedule 0 w = w"
| "schedule (Suc n) w =
     schedule n (w @ [ssig1 (w ! (length w - 2)) + w ! (length w - 7)
                      + ssig0 (w ! (length w - 15)) + w ! (length w - 16)])"

fun round :: "sha_state \<Rightarrow> w32 \<times> w32 \<Rightarrow> sha_state" where
  "round (a, b, c, d, e, f, g, h) (k, w) =
     (let t1 = h + bsig1 e + ((e AND f) XOR (NOT e AND g)) + k + w;
          t2 = bsig0 a + ((a AND b) XOR (a AND c) XOR (b AND c))
      in (t1 + t2, a, b, c, d + t1, e, f, g))"

fun add_state :: "sha_state \<Rightarrow> sha_state \<Rightarrow> sha_state" where
  "add_state (a, b, c, d, e, f, g, h) (a', b', c', d', e', f', g', h') =
     (a + a', b + b', c + c', d + d', e + e', f + f', g + g', h + h')"

definition compress :: "sha_state \<Rightarrow> byte list \<Rightarrow> sha_state" where
  "compress st block =
     add_state st (foldl round st (zip K256 (schedule 48 (be_words block))))"

definition sha256 :: "byte list \<Rightarrow> sha_state" where
  "sha256 m = foldl compress H256 (chunks (length (pad m) div 64) (pad m))"

definition hex_digit :: "nat \<Rightarrow> char" where
  "hex_digit n = ''0123456789abcdef'' ! n"

definition hex32 :: "w32 \<Rightarrow> string" where
  "hex32 w =
     map (\<lambda>i. hex_digit (unat (drop_bit (4 * i) w AND 0xF))) [7, 6, 5, 4, 3, 2, 1, 0]"

fun hexdigest :: "sha_state \<Rightarrow> string" where
  "hexdigest (a, b, c, d, e, f, g, h) =
     hex32 a @ hex32 b @ hex32 c @ hex32 d @ hex32 e @ hex32 f @ hex32 g @ hex32 h"

text \<open>
  The method \<^verbatim>\<open>_hash\<close> (a name cannot start with an underscore here). Its first
  argument is the anonymizer object \<^verbatim>\<open>self\<close>, of which the excerpt shows the one
  attribute \<^verbatim>\<open>self.patterns\<close>; one object lives for one run of the service.
\<close>

record anonymizer =
  self_patterns :: "detector list"

definition pii_hash :: "'a anonymizer_scheme \<Rightarrow> string \<Rightarrow> string" where
  "pii_hash self v = take 16 (hexdigest (sha256 (encode v)))"

subsection \<open>Anonymizer\<close>

text \<open>
  Modelled from the spec: the function \<^verbatim>\<open>anonymize\<close> of pii.py, of which the
  repository's sources quote only the pattern dictionary and \<^verbatim>\<open>_hash\<close>. The
  specification (4.1): "apply an ordered list of pattern detectors ... Resolution policy
  for overlapping matches from different detectors: earliest match start wins; on tie,
  the more specific pattern (fewer wildcard characters) wins. All matches are applied in
  a single left-to-right pass over original offsets ... (computed against the original
  string, substitutions assembled into a new string afterward)", and "malformed input
  (non-text) is rejected with an InvalidInput error".

  A candidate is a match of one detector in the raw text: start offset, end offset and
  the detector. The wildcard characters of a pattern are read as its character classes;
  among candidates of equal start and equally many wildcards the detector registered
  first wins (the sort is stable).
\<close>

type_synonym candidate = "nat \<times> nat \<times> detector"

definition candidates :: "'a anonymizer_scheme \<Rightarrow> string \<Rightarrow> candidate list" where
  "candidates self raw_text =
     concat (map (\<lambda>d. map (\<lambda>(s, e). (s, e, d)) (finditer (regex d) raw_text))
                 (self_patterns self))"

fun is_class :: "atom \<Rightarrow> bool" where
  "is_class (Chars c m n) = True"
| "is_class _ = False"

definition wildcards :: "pattern \<Rightarrow> nat" where
  "wildcards pat = length (filter is_class pat)"

definition priority :: "candidate \<Rightarrow> nat \<times> nat" where
  "priority = (\<lambda>(s, e, d). (s, wildcards (regex d)))"

fun resolve :: "nat \<Rightarrow> candidate list \<Rightarrow> candidate list" where
  "resolve pos [] = []"
| "resolve pos ((s, e, d) # cs) =
     (if pos \<le> s then (s, e, d) # resolve e cs else resolve pos cs)"

definition selected :: "'a anonymizer_scheme \<Rightarrow> string \<Rightarrow> candidate list" where
  "selected self raw_text = resolve 0 (sort_key priority (candidates self raw_text))"

fun assemble :: "string \<Rightarrow> nat \<Rightarrow> candidate list \<Rightarrow> string" where
  "assemble raw_text pos [] = drop pos raw_text"
| "assemble raw_text pos ((s, e, d) # cs) =
     take (s - pos) (drop pos raw_text) @ tag d @ assemble raw_text e cs"

text \<open>
  A PIIMatch (specification, section 3): the frontend's \<^verbatim>\<open>interface PIIMatch\<close> names
  the first four fields \<^verbatim>\<open>type\<close>, \<^verbatim>\<open>start\<close>, \<^verbatim>\<open>end\<close> and \<^verbatim>\<open>text\<close>.
\<close>

record pii_match =
  kind :: string
  span_start :: nat
  span_end :: nat
  original_value :: string
  replacement_token :: string
  pseudonym :: string

definition to_match :: "'a anonymizer_scheme \<Rightarrow> string \<Rightarrow> candidate \<Rightarrow> pii_match" where
  "to_match self raw_text =
     (\<lambda>(s, e, d). let v = take (e - s) (drop s raw_text)
                  in \<lparr>kind = name d, span_start = s, span_end = e, original_value = v,
                      replacement_token = tag d, pseudonym = pii_hash self v\<rparr>)"

definition anonymized_text :: "'a anonymizer_scheme \<Rightarrow> string \<Rightarrow> string" where
  "anonymized_text self raw_text = assemble raw_text 0 (selected self raw_text)"

definition matches :: "'a anonymizer_scheme \<Rightarrow> string \<Rightarrow> pii_match list" where
  "matches self raw_text = map (to_match self raw_text) (selected self raw_text)"

datatype raw_value = Text string | NotText

text \<open>The error taxonomy of the specification (section 7).\<close>

datatype error =
    InvalidInput
  | IndexUnavailable
  | EmbeddingServiceError
  | GenerationServiceError

fun anonymize :: "'a anonymizer_scheme \<Rightarrow> raw_value \<Rightarrow> error + string \<times> pii_match list" where
  "anonymize self (Text raw_text) =
     Inr (anonymized_text self raw_text, matches self raw_text)"
| "anonymize self NotText = Inl InvalidInput"

text \<open>
  The ingest page shows for every reported match, in the column "Anonymisiert zu", the
  label \<^verbatim>\<open>[{match.type.toUpperCase()}]\<close>.
\<close>

definition upper_char :: "char \<Rightarrow> char" where
  "upper_char c =
     (let n = (of_char c :: nat)
      in if (97 \<le> n \<and> n \<le> 122) \<or> (224 \<le> n \<and> n \<le> 254 \<and> n \<noteq> 247)
         then char_of (n - 32) else c)"

definition preview_label :: "string \<Rightarrow> string" where
  "preview_label match_type = ''['' @ map upper_char match_type @ '']''"

text \<open>The anonymizer of the service: \<^verbatim>\<open>self.patterns\<close> is the table above.\<close>

definition pii_service :: anonymizer where
  "pii_service = \<lparr>self_patterns = patterns\<rparr>"


text \<open>\<open>occurs sub s\<close>: the string \<open>sub\<close> occurs in \<open>s\<close> (Python's \<^verbatim>\<open>sub in s\<close>).\<close>

definition occurs :: "string \<Rightarrow> string \<Rightarrow> bool" where
  "occurs sub s = list_ex (\<lambda>i. take (length sub) (drop i s) = sub) [0 ..< Suc (length s)]"

subsection \<open>Reciprocal rank fusion (vectorstore.py)\<close>

text \<open>
  A RankedCandidate of the specification (section 3): a document as one retrieval method
  ranked it. The excerpt of vectorstore.py reads the rank of a document as
  \<^verbatim>\<open>vector_rankings[doc_id]["rank"]\<close> and \<^verbatim>\<open>bm25_rankings[doc_id]["rank"]\<close>: the
  two rankings are dictionaries from the document id to such an entry.
\<close>

datatype source_method = lexical | semantic

record ranked_candidate =
  document_id :: string
  rank :: nat
  method_score :: rat
  source_method :: source_method

type_synonym rankings = "string \<rightharpoonup> ranked_candidate"

text \<open>
  \<^verbatim>\<open>
  for doc_id in all_candidates:
      rrf_score = 0
      if doc_id in vector_rankings:
          rrf_score += 1 / (60 + vector_rankings[doc_id]["rank"])
      if doc_id in bm25_rankings:
          rrf_score += 1 / (60 + bm25_rankings[doc_id]["rank"])
  \<close>
  The body of the loop, for one \<^verbatim>\<open>doc_id\<close>.
\<close>

definition rrf_score :: "rankings \<Rightarrow> rankings \<Rightarrow> string \<Rightarrow> rat" where
  "rrf_score vector_rankings bm25_rankings doc_id =
     (let rrf_score = 0;
          rrf_score = (case vector_rankings doc_id of
                         Some r \<Rightarrow> rrf_score + 1 / of_nat (60 + rank r)
                       | None \<Rightarrow> rrf_score);
          rrf_score = (case bm25_rankings doc_id of
                         Some r \<Rightarrow> rrf_score + 1 / of_nat (60 + rank r)
                       | None \<Rightarrow> rrf_score)
      in rrf_score)"

text \<open>
  Modelled from the spec: what vectorstore.py does around the quoted loop. The ranking
  dictionaries are filled from the ranked lists, one entry per document id (a later
  entry of the same id replaces an earlier one, as an assignment to a dictionary does);
  \<^verbatim>\<open>all_candidates\<close> are the distinct documents of either list; the result holds one
  FusedCandidate per candidate and is "sorted descending by fused_score", where "ties in
  fused_score break by: (1) higher raw lexical score, (2) lexicographically smaller
  document_id". A document that the lexical list does not hold has no raw lexical score
  and comes after the documents of equal fused score that have one.
\<close>

definition add_ranking :: "ranked_candidate \<Rightarrow> rankings \<Rightarrow> rankings" where
  "add_ranking c m = m(document_id c \<mapsto> c)"

definition rankings_of :: "ranked_candidate list \<Rightarrow> rankings" where
  "rankings_of ranked = fold add_ranking ranked Map.empty"

definition all_candidates :: "ranked_candidate list \<Rightarrow> ranked_candidate list \<Rightarrow> string list" where
  "all_candidates lexical_ranked semantic_ranked =
     remdups (map document_id semantic_ranked @ map document_id lexical_ranked)"

record fused_candidate =
  fused_id :: string
  fused_score :: rat
  contributing_methods :: "source_method set"

definition fused_of :: "rankings \<Rightarrow> rankings \<Rightarrow> string \<Rightarrow> fused_candidate" where
  "fused_of vector_rankings bm25_rankings doc_id =
     \<lparr>fused_id = doc_id,
      fused_score = rrf_score vector_rankings bm25_rankings doc_id,
      contributing_methods =
        (if doc_id \<in> dom bm25_rankings then {lexical} else {})
        \<union> (if doc_id \<in> dom vector_rankings then {semantic} else {})\<rparr>"

definition fuse_order :: "rankings \<Rightarrow> fused_candidate \<Rightarrow> rat \<times> (nat \<times> rat) \<times> string" where
  "fuse_order bm25_rankings c =
     (- fused_score c,
      (case bm25_rankings (fused_id c) of
         Some r \<Rightarrow> (0, - method_score r)
       | None \<Rightarrow> (1, 0)),
      fused_id c)"

definition fuse :: "ranked_candidate list \<Rightarrow> ranked_candidate list \<Rightarrow> fused_candidate list" where
  "fuse lexical_ranked semantic_ranked =
     (let bm25_rankings = rankings_of lexical_ranked;
          vector_rankings = rankings_of semantic_ranked
      in sort_key (fuse_order bm25_rankings)
           (map (fused_of vector_rankings bm25_rankings)
                (all_candidates lexical_ranked semantic_ranked)))"

text \<open>
  Modelled from the spec: the rank of a search result is its "1-based position within
  one retrieval method's ranked list" (the search of an index returns an "ordered
  sequence of (document_id, raw_score)").
\<close>

definition rank_results :: "source_method \<Rightarrow> (string \<times> rat) list \<Rightarrow> ranked_candidate list" where
  "rank_results m results =
     map (\<lambda>(i, (d, sc)). \<lparr>document_id = d, rank = Suc i, method_score = sc, source_method = m\<rparr>)
         (enumerate 0 results)"

text \<open>
  The formula of the specification, in its words: the sum, over the methods whose list
  holds the document, of \<open>1 / (K + rank)\<close> with \<open>K = 60\<close>.
\<close>

definition reciprocal_terms :: "ranked_candidate list \<Rightarrow> string \<Rightarrow> rat" where
  "reciprocal_terms ranked d =
     (\<Sum>c \<leftarrow> [c \<leftarrow> ranked. document_id c = d]. 1 / of_nat (60 + rank c))"

definition spec_fused_score :: "ranked_candidate list \<Rightarrow> ranked_candidate list \<Rightarrow> string \<Rightarrow> rat" where
  "spec_fused_score lexical_ranked semantic_ranked d =
     reciprocal_terms lexical_ranked d + reciprocal_terms semantic_ranked d"

text \<open>Ranked lists and rankings for the examples.\<close>

definition lexical_example :: "ranked_candidate list" where
  "lexical_example = rank_results lexical [(''D1'', 12), (''D3'', 7)]"

definition semantic_example :: "ranked_candidate list" where
  "semantic_example = rank_results semantic [(''D2'', 9 / 10), (''D1'', 8 / 10)]"

definition top_lexical :: rankings where
  "top_lexical = rankings_of (rank_results lexical [(''D1'', 12)])"

definition top_semantic :: rankings where
  "top_semantic = rankings_of (rank_results semantic [(''D1'', 9 / 10)])"

definition other_lexical :: rankings where
  "other_lexical = rankings_of (rank_results lexical [(''D3'', 12), (''D2'', 7)])"

definition other_semantic :: rankings where
  "other_semantic = rankings_of (rank_results semantic [(''D2'', 9 / 10), (''D3'', 8 / 10)])"

definition tied_a :: ranked_candidate where
  "tied_a = \<lparr>document_id = ''FB-1'', rank = 1, method_score = 5, source_method = lexical\<rparr>"

definition tied_b :: ranked_candidate where
  "tied_b = \<lparr>document_id = ''FB-2'', rank = 1, method_score = 5, source_method = lexical\<rparr>"

subsection \<open>Answer composition (rag.py)\<close>

text \<open>
  The response of the chat endpoint as the chat page reads it (\<^verbatim>\<open>data.answer\<close>,
  \<^verbatim>\<open>data.sources\<close>, \<^verbatim>\<open>data.answerable\<close>), with the conflict flags of the
  specification's Answer. A key that the returned dictionary does not hold is \<open>None\<close>.
\<close>

record response =
  answer :: string
  answerable :: bool
  sources :: "source list option"
  conflict_flags :: "(string \<times> string) list option"

text \<open>
  The citations of a response, as the chat page shows them:
  \<^verbatim>\<open>message.sources && message.sources.length > 0 && ... message.sources.map(...)\<close>.
\<close>

definition citations :: "response \<Rightarrow> source list" where
  "citations r = (case sources r of None \<Rightarrow> [] | Some ss \<Rightarrow> ss)"

datatype terminal_state = Answered | Refused_NoEvidence | Refused_UncitedOutput

text \<open>
  What the composer is given from outside: the generation service (\<open>complete\<close>, which
  can fail), the reading of a generated text as a list of claims, and the heuristic that
  tells whether two pieces of evidence contradict each other. The specification fixes
  none of the three.
\<close>

record services =
  complete :: "string \<Rightarrow> error + string"
  claims_of :: "string \<Rightarrow> string list"
  conflicting :: "source \<Rightarrow> source \<Rightarrow> bool"

text \<open>\<^verbatim>\<open>"answer": "Zu dieser Frage liegen keine Informationen vor."\<close>\<close>

definition no_information :: string where
  "no_information = ''Zu dieser Frage liegen keine Informationen vor.''"

text \<open>\<^verbatim>\<open>answer.lower()\<close>, on the code points below 256.\<close>

definition lower_char :: "char \<Rightarrow> char" where
  "lower_char c =
     (let n = (of_char c :: nat)
      in if (65 \<le> n \<and> n \<le> 90) \<or> (192 \<le> n \<and> n \<le> 222 \<and> n \<noteq> 215)
         then char_of (n + 32) else c)"

definition lower :: "string \<Rightarrow> string" where
  "lower s = map lower_char s"

text \<open>
  The markers of a text: the strings between an opening and the next closing bracket
  (the system prompt asks to cite every statement as \<^verbatim>\<open>[Quellen-ID]\<close>). The first
  argument is the marker being read, if the position is inside brackets.
\<close>

fun scan_markers :: "string option \<Rightarrow> string \<Rightarrow> string list" where
  "scan_markers m [] = []"
| "scan_markers None (c # s) =
     (if c = CHR ''['' then scan_markers (Some []) s else scan_markers None s)"
| "scan_markers (Some m) (c # s) =
     (if c = CHR '']'' then m # scan_markers None s
      else if c = CHR ''['' then scan_markers (Some []) s
      else scan_markers (Some (m @ [c])) s)"

definition markers_of :: "string \<Rightarrow> string list" where
  "markers_of t = scan_markers None t"

definition resolve_marker :: "source list \<Rightarrow> string \<Rightarrow> source option" where
  "resolve_marker evidence m = find (\<lambda>s. source_id s = m) evidence"

definition cited :: "source list \<Rightarrow> string \<Rightarrow> bool" where
  "cited evidence claim = list_ex (\<lambda>m. resolve_marker evidence m \<noteq> None) (markers_of claim)"

definition used_citations :: "source list \<Rightarrow> string \<Rightarrow> source list" where
  "used_citations evidence t =
     remdups (List.map_filter (resolve_marker evidence) (markers_of t))"

fun pairs :: "'a list \<Rightarrow> ('a \<times> 'a) list" where
  "pairs [] = []"
| "pairs (x # xs) = map (Pair x) xs @ pairs xs"

definition detect_conflicts :: "services \<Rightarrow> source list \<Rightarrow> (string \<times> string) list" where
  "detect_conflicts svc evidence =
     map (\<lambda>(a, b). (source_id a, source_id b))
         (filter (\<lambda>(a, b). conflicting svc a b) (pairs evidence))"

text \<open>
  The rules of the system prompt ("Beantworte NUR basierend auf den gegebenen Quellen",
  "Zitiere JEDE Aussage mit [Quellen-ID]", "Sage 'Diese Information liegt nicht vor' wenn
  keine Evidenz"), each piece of evidence under its marker, and the question.
\<close>

definition system_prompt :: string where
  "system_prompt =
     ''1. Beantworte NUR basierend auf den gegebenen Quellen. ''
     @ ''2. Zitiere JEDE Aussage mit [Quellen-ID]. ''
     @ ''3. Sage Diese Information liegt nicht vor wenn keine Evidenz. ''"

definition build_prompt :: "source list \<Rightarrow> string \<Rightarrow> string" where
  "build_prompt evidence question =
     system_prompt
     @ concat (map (\<lambda>s. ''['' @ source_id s @ ''] '' @ source_text s @ '' '') evidence)
     @ ''Frage: '' @ question"

text \<open>
  Modelled from the spec: the post-validation of the generated text (4.6, step 6), of
  which the sources quote only \<^verbatim>\<open>if "liegt nicht vor" in answer.lower(): relevant_sources = []\<close>.
  "If it contains the fixed refusal phrase, force answerable = false and discard any
  citation markers even if present. Otherwise extract the citation markers actually used
  and resolve them back to EvidenceItem references; any claim without a resolvable
  citation marker causes the citation-required guardrail to reject the whole answer and
  substitute the refusal." An answer has at least one citation. The generator's own
  refusal keeps the generated text, as the quoted line does, and is reported as
  Refused-NoEvidence (the specification names no state of its own for it).
\<close>

definition post_validate ::
  "services \<Rightarrow> source list \<Rightarrow> (string \<times> string) list \<Rightarrow> string \<Rightarrow> terminal_state \<times> response" where
  "post_validate svc evidence conflicts generated =
     (if occurs ''liegt nicht vor'' (lower generated) then
        (Refused_NoEvidence,
         \<lparr>answer = generated, answerable = False, sources = Some [],
          conflict_flags = Some conflicts\<rparr>)
      else if list_ex (\<lambda>claim. \<not> cited evidence claim) (claims_of svc generated)
              \<or> used_citations evidence generated = [] then
        (Refused_UncitedOutput,
         \<lparr>answer = no_information, answerable = False, sources = Some [],
          conflict_flags = Some conflicts\<rparr>)
      else
        (Answered,
         \<lparr>answer = generated, answerable = True,
          sources = Some (used_citations evidence generated),
          conflict_flags = Some conflicts\<rparr>))"

text \<open>
  Modelled from the spec: what the composer does with a non-empty list of sources (4.6,
  steps 3 to 5; this part of rag.py is not quoted): conflict detection, the prompt, and
  one call of the generation service, whose failure is the error of the query. The
  second component of the result lists the prompts sent to the generation service.
\<close>

definition generate_answer ::
  "services \<Rightarrow> source list \<Rightarrow> string \<Rightarrow> (error + terminal_state \<times> response) \<times> string list" where
  "generate_answer svc evidence question =
     (let conflicts = detect_conflicts svc evidence;
          prompt = build_prompt evidence question
      in (case complete svc prompt of
            Inl e \<Rightarrow> (Inl e, [prompt])
          | Inr generated \<Rightarrow>
              (Inr (post_validate svc evidence conflicts generated), [prompt])))"

text \<open>
  \<^verbatim>\<open>
  # Check: Gibt es relevante Quellen?
  if not sources:
      return {
          "answer": "Zu dieser Frage liegen keine Informationen vor.",
          "answerable": False
      }
  \<close>
  The guard returns before anything is sent to the generation service; the returned
  dictionary has the two keys shown. (The parameter is called \<open>evidence\<close> here, the
  name \<open>sources\<close> being a field of the response.)
\<close>

definition compose_answer ::
  "services \<Rightarrow> source list \<Rightarrow> string \<Rightarrow> (error + terminal_state \<times> response) \<times> string list" where
  "compose_answer svc evidence question =
     (if evidence = [] then
        (Inr (Refused_NoEvidence,
              \<lparr>answer = no_information, answerable = False, sources = None,
               conflict_flags = None\<rparr>),
         [])
      else generate_answer svc evidence question)"

text \<open>
  Modelled from the spec: the query path (section 2), "Fusion Engine, Relevance Filter,
  Answer Composer": the composer is given the filtered evidence set as its sources.
\<close>

definition ask ::
  "services \<Rightarrow> source list \<Rightarrow> rat \<Rightarrow> nat \<Rightarrow> string
   \<Rightarrow> (error + terminal_state \<times> response) \<times> string list" where
  "ask svc fused_candidates min_score max_results question =
     compose_answer svc (relevance_filter fused_candidates min_score max_results) question"

text \<open>A reading of claims for the examples: the sentences of a text, split at the full stop.\<close>

fun sentences :: "string \<Rightarrow> string \<Rightarrow> string list" where
  "sentences acc [] = (if acc = [] then [] else [acc])"
| "sentences acc (c # s) =
     (if c = CHR ''.'' then (if acc = [] then sentences [] s else acc # sentences [] s)
      else sentences (acc @ [c]) s)"

text \<open>A stub of the generation service that answers every prompt with one fixed text.\<close>

definition stub_services :: "string \<Rightarrow> services" where
  "stub_services reply =
     \<lparr>complete = (\<lambda>prompt. Inr reply), claims_of = sentences [], conflicting = (\<lambda>a b. False)\<rparr>"


subsection \<open>Dashboard: source distribution (frontend)\<close>








section \<open>Theorems\<close>

subsection \<open>Relevance filter\<close>

lemma relevant_sources_above:
  "s \<in> set (relevant_sources cs m) \<Longrightarrow> m \<le> score s"
  by (simp add: relevant_sources_def)

lemma relevance_filter_subset:
  "set (relevance_filter cs m k) \<subseteq> set (relevant_sources cs m)"
  unfolding relevance_filter_def by (rule set_take_subset)

text \<open>
  Claim C7. The relevance filter returns no candidate whose fused score is below
  \<open>min_score\<close>, returns at most \<open>max_results\<close> items, and an empty result is an ordinary
  value of the function: it is what the filter returns exactly when no candidate
  reaches the threshold or \<open>max_results\<close> is zero (there is no error result).
\<close>

theorem relevance_filter_threshold_and_bound:
  "(\<forall>e \<in> set (relevance_filter cs min_score max_results). min_score \<le> score e)
   \<and> length (relevance_filter cs min_score max_results) \<le> max_results
   \<and> (relevance_filter cs min_score max_results = []
        \<longleftrightarrow> max_results = 0 \<or> (\<forall>c \<in> set cs. score c < min_score))"
proof (intro conjI)
  show "\<forall>e \<in> set (relevance_filter cs min_score max_results). min_score \<le> score e"
    using relevance_filter_subset relevant_sources_above by blast
  show "length (relevance_filter cs min_score max_results) \<le> max_results"
    by (simp add: relevance_filter_def)
  show "relevance_filter cs min_score max_results = []
        \<longleftrightarrow> max_results = 0 \<or> (\<forall>c \<in> set cs. score c < min_score)"
    by (auto simp: relevance_filter_def relevant_sources_def filter_empty_conv not_le)
qed

theorem relevance_filter_threshold_and_bound_witness:
  "relevance_filter
     [\<lparr>source_id = ''FB-1'', source_text = ''a'', score = 1 / 61, metadata = []\<rparr>,
      \<lparr>source_id = ''FB-2'', source_text = ''b'', score = 1 / 70, metadata = []\<rparr>,
      \<lparr>source_id = ''FB-3'', source_text = ''c'', score = 2 / 61, metadata = []\<rparr>]
     MIN_RELEVANCE_SCORE 1
   = [\<lparr>source_id = ''FB-1'', source_text = ''a'', score = 1 / 61, metadata = []\<rparr>]
   \<and> MIN_RELEVANCE_SCORE \<le> 1 / 61
   \<and> relevance_filter
       [\<lparr>source_id = ''FB-2'', source_text = ''b'', score = 1 / 70, metadata = []\<rparr>] MIN_RELEVANCE_SCORE 5 = []"
  using relevance_filter_threshold_and_bound
    [of "[\<lparr>source_id = ''FB-2'', source_text = ''b'', score = 1 / 70, metadata = []\<rparr>]" MIN_RELEVANCE_SCORE 5]
  by (simp add: relevance_filter_def relevant_sources_def MIN_RELEVANCE_SCORE_def)

subsection \<open>Pseudonyms\<close>







text \<open>The test vector of the standard for the message "abc".\<close>

lemma pii_hash_abc: "pii_hash pii_service ''abc'' = ''ba7816bf8f01cfea''"
  by code_simp


subsection \<open>Dashboard\<close>




subsection \<open>Anonymizer\<close>

lemma selected_scenario:
  "selected pii_service ''Kontakt: max.mustermann@vw.de, Tel 0049 151 2345678, B-AB 1234''
   = [(9, 29, \<lparr>name = ''email'', regex = email_rx, tag = ''[EMAIL]''\<rparr>),
      (35, 51, \<lparr>name = ''phone_de'', regex = phone_de_rx, tag = ''[TELEFON]''\<rparr>),
      (53, 62, \<lparr>name = ''plate_de'', regex = plate_de_rx, tag = ''[KENNZEICHEN]''\<rparr>)]"
  by code_simp

text \<open>
  Claim C8. The anonymizer turns the raw text of the scenario into a text that holds the
  tags \<^verbatim>\<open>[EMAIL]\<close>, \<^verbatim>\<open>[TELEFON]\<close> and \<^verbatim>\<open>[KENNZEICHEN]\<close>; the three original values
  it matched (the e-mail address, the phone number, the licence plate) do not occur in
  that text.
\<close>

theorem anonymize_scenario:
  "anonymize pii_service (Text ''Kontakt: max.mustermann@vw.de, Tel 0049 151 2345678, B-AB 1234'')
     = Inr (''Kontakt: [EMAIL], Tel [TELEFON], [KENNZEICHEN]'',
            matches pii_service ''Kontakt: max.mustermann@vw.de, Tel 0049 151 2345678, B-AB 1234'')
   \<and> map original_value
         (matches pii_service ''Kontakt: max.mustermann@vw.de, Tel 0049 151 2345678, B-AB 1234'')
       = [''max.mustermann@vw.de'', ''0049 151 2345678'', ''B-AB 1234'']
   \<and> occurs ''[EMAIL]'' ''Kontakt: [EMAIL], Tel [TELEFON], [KENNZEICHEN]''
   \<and> occurs ''[TELEFON]'' ''Kontakt: [EMAIL], Tel [TELEFON], [KENNZEICHEN]''
   \<and> occurs ''[KENNZEICHEN]'' ''Kontakt: [EMAIL], Tel [TELEFON], [KENNZEICHEN]''
   \<and> \<not> occurs ''max.mustermann@vw.de'' ''Kontakt: [EMAIL], Tel [TELEFON], [KENNZEICHEN]''
   \<and> \<not> occurs ''0049 151 2345678'' ''Kontakt: [EMAIL], Tel [TELEFON], [KENNZEICHEN]''
   \<and> \<not> occurs ''B-AB 1234'' ''Kontakt: [EMAIL], Tel [TELEFON], [KENNZEICHEN]''"
proof (intro conjI)
  show "anonymize pii_service (Text ''Kontakt: max.mustermann@vw.de, Tel 0049 151 2345678, B-AB 1234'')
     = Inr (''Kontakt: [EMAIL], Tel [TELEFON], [KENNZEICHEN]'',
            matches pii_service ''Kontakt: max.mustermann@vw.de, Tel 0049 151 2345678, B-AB 1234'')"
    by (simp add: anonymized_text_def selected_scenario)
  show "map original_value
         (matches pii_service ''Kontakt: max.mustermann@vw.de, Tel 0049 151 2345678, B-AB 1234'')
       = [''max.mustermann@vw.de'', ''0049 151 2345678'', ''B-AB 1234'']"
    by (simp add: matches_def selected_scenario to_match_def Let_def)
qed code_simp+

text \<open>
  The pseudonym recorded in a match is the hash of the matched value, the slice of the
  raw text between the offsets of the match.
\<close>

lemma matches_pseudonym:
  "\<forall>m \<in> set (matches self raw_text).
     pseudonym m = pii_hash self (original_value m)
     \<and> original_value m = take (span_end m - span_start m) (drop (span_start m) raw_text)"
  by (auto simp: matches_def to_match_def Let_def)

text \<open>
  The labels of the ingest page's preview are not the tags of the table for the phone
  number and the licence plate.
\<close>

lemma preview_labels:
  "map (preview_label \<circ> name) patterns
   = [''[EMAIL]'', ''[PHONE_DE]'', ''[PLATE_DE]'', ''[VIN]'', ''[DATE]'']"
  by code_simp





text \<open>
  A match that loses the resolution of an overlap is dropped, and what is left of it can
  match again: the plate pattern matches "AB 0151" from offset 0, the phone pattern
  "0151 0151" from offset 3.
\<close>

lemma overlap_example:
  "anonymized_text pii_service ''AB 0151 0151 2345678'' = ''[KENNZEICHEN] 0151 2345678''
   \<and> finditer phone_de_rx ''[KENNZEICHEN] 0151 2345678'' = [(14, 26)]"
  by code_simp
















subsection \<open>Answer composition\<close>

lemma compose_answer_no_sources:
  "compose_answer svc [] question
     = (Inr (Refused_NoEvidence,
             \<lparr>answer = no_information, answerable = False, sources = None,
              conflict_flags = None\<rparr>), [])"
  by (simp add: compose_answer_def)

text \<open>
  Claim C2. When the filtered evidence set of a query is empty, the composer sends no
  prompt to the generation service and returns the refusal: a response that is not
  answerable and has no citation, whatever the generation service would have said.
\<close>

theorem no_evidence_no_generation:
  assumes "relevance_filter fused_candidates min_score max_results = []"
  shows "snd (ask svc fused_candidates min_score max_results question) = []
    \<and> (\<exists>r. fst (ask svc fused_candidates min_score max_results question)
               = Inr (Refused_NoEvidence, r)
            \<and> \<not> answerable r \<and> citations r = [] \<and> answer r = no_information)"
  using assms by (simp add: ask_def compose_answer_no_sources citations_def)

theorem no_evidence_no_generation_witness:
  "relevance_filter
     [\<lparr>source_id = ''FB-2'', source_text = ''b'', score = 1 / 70, metadata = []\<rparr>]
     MIN_RELEVANCE_SCORE 5 = []
   \<and> ask (stub_services ''Das Navi ist kaputt.'')
       [\<lparr>source_id = ''FB-2'', source_text = ''b'', score = 1 / 70, metadata = []\<rparr>]
       MIN_RELEVANCE_SCORE 5 ''Was ist mit dem Navi?''
     = (Inr (Refused_NoEvidence,
             \<lparr>answer = no_information, answerable = False, sources = None,
              conflict_flags = None\<rparr>), [])"
proof -
  have e: "relevance_filter
     [\<lparr>source_id = ''FB-2'', source_text = ''b'', score = 1 / 70, metadata = []\<rparr>]
     MIN_RELEVANCE_SCORE 5 = []"
    by (simp add: relevance_filter_def relevant_sources_def MIN_RELEVANCE_SCORE_def)
  from no_evidence_no_generation [OF e, of "stub_services ''Das Navi ist kaputt.''" "''Was ist mit dem Navi?''"]
  show ?thesis
    using e by (simp add: ask_def compose_answer_no_sources)
qed











subsection \<open>Reciprocal rank fusion\<close>

lemma add_ranking_apply:
  "add_ranking c m d = (if d = document_id c then Some c else m d)"
  by (simp add: add_ranking_def)

lemma fold_rankings_other:
  "d \<notin> set (map document_id xs) \<Longrightarrow> fold add_ranking xs m d = m d"
  by (induction xs arbitrary: m) (auto simp: add_ranking_apply)

lemma fold_rankings_member:
  "distinct (map document_id xs) \<Longrightarrow> c \<in> set xs \<Longrightarrow>
   fold add_ranking xs m (document_id c) = Some c"
proof (induction xs arbitrary: m)
  case Nil
  then show ?case by simp
next
  case (Cons x xs)
  show ?case
  proof (cases "c = x")
    case True
    with Cons.prems have "document_id c \<notin> set (map document_id xs)" by simp
    then have "fold add_ranking xs (add_ranking c m) (document_id c)
               = add_ranking c m (document_id c)"
      by (rule fold_rankings_other)
    moreover have "add_ranking c m (document_id c) = Some c"
      by (simp add: add_ranking_apply)
    ultimately show ?thesis using True by simp
  next
    case False
    with Cons show ?thesis by simp
  qed
qed

lemma rankings_of_member:
  "distinct (map document_id xs) \<Longrightarrow> c \<in> set xs \<Longrightarrow> rankings_of xs (document_id c) = Some c"
  unfolding rankings_of_def by (rule fold_rankings_member)

lemma rankings_of_absent:
  "d \<notin> set (map document_id xs) \<Longrightarrow> rankings_of xs d = None"
  unfolding rankings_of_def by (simp add: fold_rankings_other)

lemma dom_rankings_of:
  "distinct (map document_id xs) \<Longrightarrow> dom (rankings_of xs) = set (map document_id xs)"
proof (intro set_eqI iffI)
  fix d assume "d \<in> dom (rankings_of xs)"
  then show "d \<in> set (map document_id xs)"
    by (metis rankings_of_absent domIff)
next
  fix d assume d: "distinct (map document_id xs)" "d \<in> set (map document_id xs)"
  then obtain c where "c \<in> set xs" "document_id c = d" by auto
  with d rankings_of_member [of xs c] show "d \<in> dom (rankings_of xs)" by auto
qed

lemma rankings_of_permuted:
  assumes "distinct (map document_id xs)" and "mset ys = mset xs"
  shows "rankings_of ys = rankings_of xs"
proof
  fix d
  from assms(2) have s: "set ys = set xs" by (rule mset_eq_setD)
  from assms(2) have "mset (map document_id ys) = mset (map document_id xs)" by simp
  with assms(1) have dy: "distinct (map document_id ys)"
    by (metis mset_eq_imp_distinct_iff)
  show "rankings_of ys d = rankings_of xs d"
  proof (cases "d \<in> set (map document_id xs)")
    case True
    then obtain c where c: "c \<in> set xs" "document_id c = d" by auto
    with assms(1) dy s rankings_of_member [of xs c] rankings_of_member [of ys c]
    show ?thesis by simp
  next
    case False
    with s have "d \<notin> set (map document_id ys)" by simp
    with False show ?thesis by (simp add: rankings_of_absent)
  qed
qed

lemma filter_same_key:
  "distinct (map f xs) \<Longrightarrow> c \<in> set xs \<Longrightarrow> filter (\<lambda>x. f x = f c) xs = [c]"
proof (induction xs)
  case Nil
  then show ?case by simp
next
  case (Cons x xs)
  show ?case
  proof (cases "c = x")
    case True
    with Cons.prems have "f c \<notin> f ` set xs" by simp
    then have "\<forall>y \<in> set xs. f y \<noteq> f c" by (metis imageI)
    then have "filter (\<lambda>x. f x = f c) xs = []" by (simp add: filter_empty_conv)
    with True show ?thesis by simp
  next
    case False
    with Cons.prems have "c \<in> set xs" "f x \<noteq> f c" by auto
    with Cons show ?thesis by simp
  qed
qed

lemma reciprocal_terms_rankings:
  assumes "distinct (map document_id xs)"
  shows "reciprocal_terms xs d
         = (case rankings_of xs d of None \<Rightarrow> 0 | Some r \<Rightarrow> 1 / of_nat (60 + rank r))"
proof (cases "d \<in> set (map document_id xs)")
  case True
  then obtain c where c: "c \<in> set xs" "document_id c = d" by auto
  with assms have "filter (\<lambda>x. document_id x = d) xs = [c]"
    using filter_same_key [of document_id xs c] by simp
  with c assms show ?thesis
    using rankings_of_member [of xs c] by (simp add: reciprocal_terms_def)
next
  case False
  then have "filter (\<lambda>x. document_id x = d) xs = []"
    by (auto simp: filter_empty_conv)
  with False show ?thesis
    by (simp add: reciprocal_terms_def rankings_of_absent)
qed

lemma rrf_score_spec:
  assumes "distinct (map document_id lexical_ranked)"
      and "distinct (map document_id semantic_ranked)"
  shows "rrf_score (rankings_of semantic_ranked) (rankings_of lexical_ranked) d
         = spec_fused_score lexical_ranked semantic_ranked d"
  by (simp add: rrf_score_def spec_fused_score_def reciprocal_terms_rankings [OF assms(1)]
        reciprocal_terms_rankings [OF assms(2)] split: option.splits)

lemma fused_id_fused_of [simp]: "fused_id (fused_of v b d) = d"
  by (simp add: fused_of_def)

lemma fused_score_fused_of [simp]: "fused_score (fused_of v b d) = rrf_score v b d"
  by (simp add: fused_of_def)

lemma set_all_candidates:
  "set (all_candidates l s) = set (map document_id l) \<union> set (map document_id s)"
  by (auto simp: all_candidates_def)

lemma distinct_all_candidates: "distinct (all_candidates l s)"
  by (simp add: all_candidates_def)

lemma mset_ids_fuse:
  "mset (map fused_id (fuse l s)) = mset (all_candidates l s)"
proof -
  have "mset (map fused_id (fuse l s))
        = image_mset fused_id (mset (map (fused_of (rankings_of s) (rankings_of l)) (all_candidates l s)))"
    by (simp add: fuse_def Let_def)
  also have "\<dots> = mset (map (fused_id \<circ> fused_of (rankings_of s) (rankings_of l)) (all_candidates l s))"
    by (simp add: multiset.map_comp)
  also have "fused_id \<circ> fused_of (rankings_of s) (rankings_of l) = id"
    by (rule ext) simp
  finally show ?thesis by simp
qed

lemma set_fuse:
  "set (fuse l s) = fused_of (rankings_of s) (rankings_of l) ` set (all_candidates l s)"
  by (simp add: fuse_def Let_def)

lemma fuse_order_fst_mono:
  "fuse_order b x \<le> fuse_order b y \<Longrightarrow> fused_score y \<le> fused_score x"
  by (auto simp: fuse_order_def less_eq_prod_def)

lemma sorted_fuse_order: "sorted (map (fuse_order (rankings_of l)) (fuse l s))"
  by (simp add: fuse_def Let_def)

lemma fuse_descending:
  "sorted_wrt (\<lambda>x y. fused_score y \<le> fused_score x) (fuse l s)"
proof -
  have "sorted_wrt (\<lambda>x y. fuse_order (rankings_of l) x \<le> fuse_order (rankings_of l) y) (fuse l s)"
    using sorted_fuse_order [of l s] by (simp add: sorted_map)
  then show ?thesis
    by (rule sorted_wrt_mono_rel [rotated]) (rule fuse_order_fst_mono)
qed


lemma reciprocal_terms_member:
  "distinct (map document_id xs) \<Longrightarrow> c \<in> set xs \<Longrightarrow>
   reciprocal_terms xs (document_id c) = 1 / of_nat (60 + rank c)"
  using filter_same_key [of document_id xs c] by (simp add: reciprocal_terms_def)

lemma reciprocal_terms_absent:
  "d \<notin> set (map document_id xs) \<Longrightarrow> reciprocal_terms xs d = 0"
proof -
  assume "d \<notin> set (map document_id xs)"
  then have "filter (\<lambda>x. document_id x = d) xs = []"
    by (auto simp: filter_empty_conv)
  then show ?thesis by (simp add: reciprocal_terms_def)
qed

lemma rank_rank_results: "map rank (rank_results m results) = [1 ..< Suc (length results)]"
proof -
  have "map rank (rank_results m results) = map (Suc \<circ> fst) (enumerate 0 results)"
    by (simp add: rank_results_def split_def comp_def)
  also have "\<dots> = map Suc (map fst (enumerate 0 results))"
    by (simp only: map_map)
  also have "\<dots> = map Suc [0 ..< length results]"
    by (simp only: map_fst_enumerate add_0)
  also have "\<dots> = [1 ..< Suc (length results)]"
    by (simp add: map_Suc_upt)
  finally show ?thesis .
qed

text \<open>
  Claim C4. Where each ranked list holds a document once, the fused list holds every
  document of either list exactly once; the fused score of a document is the sum, over
  the lists that hold it, of \<open>1 / (60 + rank)\<close>: both terms for a document of both
  lists, the one term for a document of one list only. The fused list is sorted
  descending by fused score. The ranks of a list of search results are 1, 2, ... in the
  order of the results.
\<close>

theorem fuse_scores_and_order:
  assumes "distinct (map document_id lexical_ranked)"
      and "distinct (map document_id semantic_ranked)"
  shows "set (map fused_id (fuse lexical_ranked semantic_ranked))
           = set (map document_id lexical_ranked) \<union> set (map document_id semantic_ranked)
    \<and> distinct (map fused_id (fuse lexical_ranked semantic_ranked))
    \<and> (\<forall>c \<in> set (fuse lexical_ranked semantic_ranked).
          fused_score c = spec_fused_score lexical_ranked semantic_ranked (fused_id c))
    \<and> (\<forall>a \<in> set lexical_ranked. \<forall>b \<in> set semantic_ranked.
          document_id a = document_id b \<longrightarrow>
          spec_fused_score lexical_ranked semantic_ranked (document_id a)
            = 1 / of_nat (60 + rank a) + 1 / of_nat (60 + rank b))
    \<and> (\<forall>a \<in> set lexical_ranked.
          document_id a \<notin> set (map document_id semantic_ranked) \<longrightarrow>
          spec_fused_score lexical_ranked semantic_ranked (document_id a)
            = 1 / of_nat (60 + rank a))
    \<and> (\<forall>b \<in> set semantic_ranked.
          document_id b \<notin> set (map document_id lexical_ranked) \<longrightarrow>
          spec_fused_score lexical_ranked semantic_ranked (document_id b)
            = 1 / of_nat (60 + rank b))
    \<and> sorted_wrt (\<lambda>x y. fused_score y \<le> fused_score x) (fuse lexical_ranked semantic_ranked)
    \<and> map rank (rank_results m results) = [1 ..< Suc (length results)]"
proof (intro conjI ballI impI)
  show "set (map fused_id (fuse lexical_ranked semantic_ranked))
           = set (map document_id lexical_ranked) \<union> set (map document_id semantic_ranked)"
    using mset_ids_fuse [of lexical_ranked semantic_ranked, THEN mset_eq_setD]
    by (simp only: set_all_candidates)
  show "distinct (map fused_id (fuse lexical_ranked semantic_ranked))"
    using mset_ids_fuse [of lexical_ranked semantic_ranked] distinct_all_candidates
    by (metis mset_eq_imp_distinct_iff)
next
  fix c assume "c \<in> set (fuse lexical_ranked semantic_ranked)"
  then obtain d where "c = fused_of (rankings_of semantic_ranked) (rankings_of lexical_ranked) d"
    by (auto simp: set_fuse)
  then show "fused_score c = spec_fused_score lexical_ranked semantic_ranked (fused_id c)"
    by (simp add: rrf_score_spec [OF assms])
next
  fix a b
  assume "a \<in> set lexical_ranked" "b \<in> set semantic_ranked" "document_id a = document_id b"
  then show "spec_fused_score lexical_ranked semantic_ranked (document_id a)
            = 1 / of_nat (60 + rank a) + 1 / of_nat (60 + rank b)"
    using reciprocal_terms_member [OF assms(1), of a] reciprocal_terms_member [OF assms(2), of b]
    by (simp add: spec_fused_score_def)
next
  fix a
  assume "a \<in> set lexical_ranked" "document_id a \<notin> set (map document_id semantic_ranked)"
  then show "spec_fused_score lexical_ranked semantic_ranked (document_id a)
            = 1 / of_nat (60 + rank a)"
    using reciprocal_terms_member [OF assms(1), of a]
      reciprocal_terms_absent [of "document_id a" semantic_ranked]
    by (simp add: spec_fused_score_def)
next
  fix b
  assume "b \<in> set semantic_ranked" "document_id b \<notin> set (map document_id lexical_ranked)"
  then show "spec_fused_score lexical_ranked semantic_ranked (document_id b)
            = 1 / of_nat (60 + rank b)"
    using reciprocal_terms_member [OF assms(2), of b]
      reciprocal_terms_absent [of "document_id b" lexical_ranked]
    by (simp add: spec_fused_score_def)
next
  show "sorted_wrt (\<lambda>x y. fused_score y \<le> fused_score x) (fuse lexical_ranked semantic_ranked)"
    by (rule fuse_descending)
  show "map rank (rank_results m results) = [1 ..< Suc (length results)]"
    by (rule rank_rank_results)
qed

lemma reciprocal_less:
  "1 \<le> r \<Longrightarrow> r \<noteq> 1 \<Longrightarrow> 1 / (of_nat (60 + r) :: rat) < 1 / 61"
proof -
  assume "1 \<le> r" "r \<noteq> 1"
  then have "(61 :: rat) < of_nat (60 + r)" by simp
  then show ?thesis by (simp add: field_simps)
qed

text \<open>
  Claim C5. A document at rank 1 in both the semantic and the lexical ranking has a
  strictly greater fused score than a document that is at rank 1 in exactly one of the
  two rankings it is scored with (in the other it is absent or, ranks counting from 1,
  at rank 2 or below). The two documents may be scored with the same or with different
  pairs of rankings.
\<close>

theorem rank_one_in_both_beats_rank_one_in_one:
  assumes both: "vector_rankings d1 = Some a" "rank a = 1" "bm25_rankings d1 = Some b" "rank b = 1"
      and one: "(\<exists>c. vector_rankings' d2 = Some c \<and> rank c = 1)
                \<noteq> (\<exists>c. bm25_rankings' d2 = Some c \<and> rank c = 1)"
      and one_based: "\<forall>c. vector_rankings' d2 = Some c \<longrightarrow> 1 \<le> rank c"
                     "\<forall>c. bm25_rankings' d2 = Some c \<longrightarrow> 1 \<le> rank c"
  shows "rrf_score vector_rankings' bm25_rankings' d2 < rrf_score vector_rankings bm25_rankings d1"
proof -
  have top: "rrf_score vector_rankings bm25_rankings d1 = 2 / 61"
    using both by (simp add: rrf_score_def)
  have lesser: "\<And>rk. rk d2 = None \<or> (\<exists>c. rk d2 = Some c \<and> 1 \<le> rank c \<and> rank c \<noteq> 1) \<Longrightarrow>
      (case rk d2 of Some r \<Rightarrow> 1 / (of_nat (60 + rank r) :: rat) | None \<Rightarrow> 0) < 1 / 61"
    using reciprocal_less by (auto split: option.splits)
  have one_term: "\<And>rk. (\<exists>c. rk d2 = Some c \<and> rank c = 1) \<Longrightarrow>
      (case rk d2 of Some r \<Rightarrow> 1 / (of_nat (60 + rank r) :: rat) | None \<Rightarrow> 0) = 1 / 61"
    by auto
  have parts: "rrf_score vector_rankings' bm25_rankings' d2
      = (case vector_rankings' d2 of Some r \<Rightarrow> 1 / of_nat (60 + rank r) | None \<Rightarrow> 0)
        + (case bm25_rankings' d2 of Some r \<Rightarrow> 1 / of_nat (60 + rank r) | None \<Rightarrow> 0)"
    by (simp add: rrf_score_def split: option.splits)
  show ?thesis
  proof (cases "\<exists>c. vector_rankings' d2 = Some c \<and> rank c = 1")
    case True
    with one have "\<not> (\<exists>c. bm25_rankings' d2 = Some c \<and> rank c = 1)" by blast
    with one_based(2) have "bm25_rankings' d2 = None
        \<or> (\<exists>c. bm25_rankings' d2 = Some c \<and> 1 \<le> rank c \<and> rank c \<noteq> 1)"
      by (cases "bm25_rankings' d2") auto
    from lesser [of bm25_rankings', OF this] one_term [of vector_rankings', OF True] show ?thesis
      unfolding top parts by simp
  next
    case False
    with one have o: "\<exists>c. bm25_rankings' d2 = Some c \<and> rank c = 1" by blast
    from False one_based(1) have "vector_rankings' d2 = None
        \<or> (\<exists>c. vector_rankings' d2 = Some c \<and> 1 \<le> rank c \<and> rank c \<noteq> 1)"
      by (cases "vector_rankings' d2") auto
    from lesser [of vector_rankings', OF this] one_term [of bm25_rankings', OF o] show ?thesis
      unfolding top parts by simp
  qed
qed

lemma filter_eq_singleton:
  "distinct xs \<Longrightarrow> k \<in> set xs \<Longrightarrow> inj_on f (set xs) \<Longrightarrow> filter (\<lambda>x. f k = f x) xs = [k]"
proof -
  assume d: "distinct xs" and k: "k \<in> set xs" and i: "inj_on f (set xs)"
  then have "distinct (map f xs)" by (simp add: distinct_map)
  from filter_same_key [OF this k] show ?thesis
    by (simp add: eq_commute)
qed

lemma sort_key_unique:
  assumes "mset ys = mset xs" and "distinct xs" and "inj_on f (set xs)"
  shows "sort_key f ys = sort_key f xs"
proof (rule properties_for_sort_key [symmetric])
  show "mset (sort_key f ys) = mset xs" using assms(1) by simp
  show "sorted (map f (sort_key f ys))" by simp
  fix k assume "k \<in> set (sort_key f ys)"
  with assms(1) have k: "k \<in> set xs" by (metis mset_eq_setD set_sort)
  have "distinct (sort_key f ys)"
    using assms(1,2) by (metis distinct_sort mset_eq_imp_distinct_iff)
  moreover have "set (sort_key f ys) = set xs" using assms(1) by (metis mset_eq_setD set_sort)
  ultimately have "filter (\<lambda>x. f k = f x) (sort_key f ys) = [k]"
    using filter_eq_singleton [of "sort_key f ys" k f] k assms(3) by simp
  with filter_eq_singleton [OF assms(2) k assms(3)]
  show "filter (\<lambda>x. f k = f x) (sort_key f ys) = filter (\<lambda>x. f k = f x) xs" by simp
qed

lemma fuse_order_inj:
  "inj_on (fuse_order b) (fused_of v b ` D)"
  by (auto simp: inj_on_def fuse_order_def)

text \<open>
  Claim C6. Where each ranked list holds a document once, the fused list does not depend
  on the order in which the entries of the two input lists are given: permuting the
  entries (among them entries of equal rank and equal score) leaves the output unchanged.
  The output is sorted by the order (higher fused score, then higher raw lexical score,
  then smaller document id), in which no two candidates are equal.
\<close>

theorem fuse_permutation_invariant:
  assumes "distinct (map document_id lexical_ranked)"
      and "distinct (map document_id semantic_ranked)"
      and "mset lexical_ranked' = mset lexical_ranked"
      and "mset semantic_ranked' = mset semantic_ranked"
  shows "fuse lexical_ranked' semantic_ranked' = fuse lexical_ranked semantic_ranked
    \<and> sorted (map (fuse_order (rankings_of lexical_ranked)) (fuse lexical_ranked semantic_ranked))
    \<and> distinct (map (fuse_order (rankings_of lexical_ranked)) (fuse lexical_ranked semantic_ranked))"
proof (intro conjI)
  let ?b = "rankings_of lexical_ranked" and ?v = "rankings_of semantic_ranked"
  let ?cs = "all_candidates lexical_ranked semantic_ranked"
  let ?cs' = "all_candidates lexical_ranked' semantic_ranked'"
  have b: "rankings_of lexical_ranked' = ?b"
    using assms(1,3) by (rule rankings_of_permuted)
  have v: "rankings_of semantic_ranked' = ?v"
    using assms(2,4) by (rule rankings_of_permuted)
  have "set lexical_ranked' = set lexical_ranked" "set semantic_ranked' = set semantic_ranked"
    using assms(3,4) by (auto dest: mset_eq_setD)
  then have "set ?cs' = set ?cs"
    by (simp add: set_all_candidates)
  then have m: "mset ?cs' = mset ?cs"
    using distinct_all_candidates by (simp add: set_eq_iff_mset_eq_distinct)
  have inj: "inj_on (fused_of ?v ?b) (set ?cs)"
    by (rule inj_onI) (metis fused_id_fused_of)
  have d: "distinct (map (fused_of ?v ?b) ?cs)"
    using distinct_all_candidates inj by (simp add: distinct_map)
  have "sort_key (fuse_order ?b) (map (fused_of ?v ?b) ?cs')
        = sort_key (fuse_order ?b) (map (fused_of ?v ?b) ?cs)"
  proof (rule sort_key_unique)
    show "mset (map (fused_of ?v ?b) ?cs') = mset (map (fused_of ?v ?b) ?cs)"
      using m by simp
    show "distinct (map (fused_of ?v ?b) ?cs)" by (rule d)
    show "inj_on (fuse_order ?b) (set (map (fused_of ?v ?b) ?cs))"
      using fuse_order_inj [of ?b ?v "set ?cs"] by simp
  qed
  then show "fuse lexical_ranked' semantic_ranked' = fuse lexical_ranked semantic_ranked"
    by (simp add: fuse_def Let_def b v)
  show "sorted (map (fuse_order ?b) (fuse lexical_ranked semantic_ranked))"
    by (rule sorted_fuse_order)
  have "distinct (fuse lexical_ranked semantic_ranked)"
    using d by (simp add: fuse_def Let_def)
  moreover have "inj_on (fuse_order ?b) (set (fuse lexical_ranked semantic_ranked))"
    using fuse_order_inj [of ?b ?v "set ?cs"] by (simp add: set_fuse)
  ultimately show "distinct (map (fuse_order ?b) (fuse lexical_ranked semantic_ranked))"
    by (simp add: distinct_map)
qed


lemma fuse_example:
  "fuse lexical_example semantic_example
   = [\<lparr>fused_id = ''D1'', fused_score = 1 / 62 + 1 / 61, contributing_methods = {lexical, semantic}\<rparr>,
      \<lparr>fused_id = ''D2'', fused_score = 1 / 61, contributing_methods = {semantic}\<rparr>,
      \<lparr>fused_id = ''D3'', fused_score = 1 / 62, contributing_methods = {lexical}\<rparr>]"
  by code_simp

theorem fuse_scores_and_order_witness:
  "distinct (map document_id lexical_example) \<and> distinct (map document_id semantic_example)
   \<and> map fused_id (fuse lexical_example semantic_example) = [''D1'', ''D2'', ''D3'']
   \<and> spec_fused_score lexical_example semantic_example ''D1'' = 1 / 61 + 1 / 62
   \<and> spec_fused_score lexical_example semantic_example ''D2'' = 1 / 61
   \<and> spec_fused_score lexical_example semantic_example ''D3'' = 1 / 62"
proof -
  have l: "lexical_example
           = [\<lparr>document_id = ''D1'', rank = 1, method_score = 12, source_method = lexical\<rparr>,
              \<lparr>document_id = ''D3'', rank = 2, method_score = 7, source_method = lexical\<rparr>]"
    by (simp add: lexical_example_def rank_results_def)
  have s: "semantic_example
           = [\<lparr>document_id = ''D2'', rank = 1, method_score = 9 / 10, source_method = semantic\<rparr>,
              \<lparr>document_id = ''D1'', rank = 2, method_score = 8 / 10, source_method = semantic\<rparr>]"
    by (simp add: semantic_example_def rank_results_def)
  have dl: "distinct (map document_id lexical_example)" by (simp add: l)
  have ds: "distinct (map document_id semantic_example)" by (simp add: s)
  note t = fuse_scores_and_order [OF dl ds, of lexical "[]"]
  from t have "\<forall>c \<in> set (fuse lexical_example semantic_example).
      fused_score c = spec_fused_score lexical_example semantic_example (fused_id c)"
    by blast
  then have "spec_fused_score lexical_example semantic_example ''D1'' = 1 / 61 + 1 / 62"
      "spec_fused_score lexical_example semantic_example ''D2'' = 1 / 61"
      "spec_fused_score lexical_example semantic_example ''D3'' = 1 / 62"
    by (simp_all add: fuse_example)
  then show ?thesis using dl ds by (simp add: fuse_example)
qed

theorem rank_one_in_both_beats_rank_one_in_one_witness:
  "rrf_score other_semantic other_lexical ''D2'' < rrf_score top_semantic top_lexical ''D1''
   \<and> rrf_score top_semantic top_lexical ''D1'' = 2 / 61
   \<and> rrf_score other_semantic other_lexical ''D2'' = 1 / 61 + 1 / 62"
proof -
  have a: "top_semantic ''D1''
           = Some \<lparr>document_id = ''D1'', rank = 1, method_score = 9 / 10, source_method = semantic\<rparr>"
    by (simp add: top_semantic_def rankings_of_def rank_results_def add_ranking_def)
  have b: "top_lexical ''D1''
           = Some \<lparr>document_id = ''D1'', rank = 1, method_score = 12, source_method = lexical\<rparr>"
    by (simp add: top_lexical_def rankings_of_def rank_results_def add_ranking_def)
  have c: "other_semantic ''D2''
           = Some \<lparr>document_id = ''D2'', rank = 1, method_score = 9 / 10, source_method = semantic\<rparr>"
    by (simp add: other_semantic_def rankings_of_def rank_results_def add_ranking_def)
  have d: "other_lexical ''D2''
           = Some \<lparr>document_id = ''D2'', rank = 2, method_score = 7, source_method = lexical\<rparr>"
    by (simp add: other_lexical_def rankings_of_def rank_results_def add_ranking_def)
  have one: "(\<exists>c. other_semantic ''D2'' = Some c \<and> rank c = 1)
             \<noteq> (\<exists>c. other_lexical ''D2'' = Some c \<and> rank c = 1)"
    by (simp add: c d)
  have "rrf_score other_semantic other_lexical ''D2'' < rrf_score top_semantic top_lexical ''D1''"
    by (rule rank_one_in_both_beats_rank_one_in_one
          [where vector_rankings = top_semantic and bm25_rankings = top_lexical
             and vector_rankings' = other_semantic and bm25_rankings' = other_lexical
             and ?d1.0 = "''D1''" and ?d2.0 = "''D2''", OF a _ b _ one])
       (simp_all add: c d)
  then show ?thesis
    by (simp add: rrf_score_def a b c d)
qed

theorem fuse_permutation_invariant_witness:
  "fuse [tied_b, tied_a] [] = fuse [tied_a, tied_b] []
   \<and> map fused_id (fuse [tied_a, tied_b] []) = [''FB-1'', ''FB-2'']
   \<and> map fused_score (fuse [tied_a, tied_b] []) = [1 / 61, 1 / 61]"
proof -
  have d: "distinct (map document_id [tied_a, tied_b])"
    by (simp add: tied_a_def tied_b_def)
  have m: "mset [tied_b, tied_a] = mset [tied_a, tied_b]"
    by (simp add: add_mset_commute)
  have "fuse [tied_b, tied_a] [] = fuse [tied_a, tied_b] []"
    using fuse_permutation_invariant [OF d _ m, of "[]" "[]"] by simp
  moreover have "map fused_id (fuse [tied_a, tied_b] []) = [''FB-1'', ''FB-2'']"
    by code_simp
  moreover have "map fused_score (fuse [tied_a, tied_b] []) = [1 / 61, 1 / 61]"
    by code_simp
  ultimately show ?thesis by simp
qed


end
